theory Spec2Isabelle
  imports Complex_Main "HOL-Library.Product_Lexorder"
begin

section \<open>Conventions of the embedding\<close>

text \<open>
  The script \<^verbatim>\<open>train.py\<close> is embedded function by function. Python floats are
  modelled as exact reals: rounding of IEEE arithmetic is outside the model. An
  exception is a value \<open>Inl e\<close> of the result type \<open>py_error + 'a\<close>; a function that
  cannot raise returns its value directly. Mutation of an object is explicit state
  passing: the function returns the updated object.
\<close>

datatype py_error = AssertionError | ZeroDivisionError | RuntimeError | ValueError

section \<open>The running statistic \<^verbatim>\<open>AverageMeter\<close>\<close>

text \<open>The four fields of the class; \<open>sum_f\<close> is the field \<^verbatim>\<open>sum\<close>. Values and weights
  are Python numbers.\<close>

record AverageMeter =
  val :: real
  avg :: real
  sum_f :: real
  count :: real

text \<open>\<^verbatim>\<open>reset\<close>: all four fields are set to zero.\<close>

definition reset :: AverageMeter where
  "reset = \<lparr>val = 0, avg = 0, sum_f = 0, count = 0\<rparr>"

text \<open>
  \<^verbatim>\<open>update(val, n)\<close>: the division \<^verbatim>\<open>self.sum / self.count\<close> of Python numbers
  raises \<^verbatim>\<open>ZeroDivisionError\<close> when the count is zero.
\<close>

definition update :: "AverageMeter \<Rightarrow> real \<Rightarrow> real \<Rightarrow> py_error + AverageMeter" where
  "update m v n =
     (let s = sum_f m + v * n;
          c = count m + n
      in if c = 0 then Inl ZeroDivisionError
         else Inr \<lparr>val = v, avg = s / c, sum_f = s, count = c\<rparr>)"

text \<open>A sequence of calls \<^verbatim>\<open>update(v1, w1); ...; update(vn, wn)\<close> on one meter; the
  first exception ends the sequence.\<close>

fun update_all :: "AverageMeter \<Rightarrow> (real \<times> real) list \<Rightarrow> py_error + AverageMeter" where
  "update_all m [] = Inr m"
| "update_all m ((v, n) # calls) =
     (case update m v n of
        Inl e \<Rightarrow> Inl e
      | Inr m' \<Rightarrow> update_all m' calls)"

text \<open>The cumulative weight after each call of a sequence, starting from count \<open>c\<close>.\<close>

fun cumulative_weights :: "real \<Rightarrow> (real \<times> real) list \<Rightarrow> real list" where
  "cumulative_weights c [] = []"
| "cumulative_weights c ((v, n) # calls) = (c + n) # cumulative_weights (c + n) calls"

definition weighted_sum :: "(real \<times> real) list \<Rightarrow> real" where
  "weighted_sum calls = sum_list (map (\<lambda>(v, n). v * n) calls)"

definition total_weight :: "(real \<times> real) list \<Rightarrow> real" where
  "total_weight calls = sum_list (map snd calls)"

section \<open>Configuration and optimizer\<close>

text \<open>The fields of the parsed command line that the modelled functions read.\<close>

record args =
  dataset :: string
  epochs :: int
  start_epoch :: int
  lr :: real
  momentum :: real
  nesterov :: bool
  weight_decay :: real
  resume :: string
  name :: string

record param_group =
  group_lr :: real
  group_momentum :: real
  group_nesterov :: bool
  group_weight_decay :: real

text \<open>The optimizer: its parameter groups and its own state (the momentum buffers),
  whose content is the library's.\<close>

record 'b optimizer =
  param_groups :: "param_group list"
  opt_state :: 'b

text \<open>
  \<^verbatim>\<open>adjust_learning_rate(optimizer, epoch)\<close>. \<^verbatim>\<open>int(epoch >= 60)\<close> is \<open>of_bool\<close>.
  The optional push of the value to TensorBoard has no effect on the program state
  and is left out.
\<close>

definition adjust_learning_rate :: "args \<Rightarrow> 'b optimizer \<Rightarrow> int \<Rightarrow> 'b optimizer" where
  "adjust_learning_rate a opt epoch =
     (let new_lr = lr a * ((0.2 ^ (of_bool (epoch \<ge> 60) :: nat))
                         * (0.2 ^ (of_bool (epoch \<ge> 120) :: nat))
                         * (0.2 ^ (of_bool (epoch \<ge> 160) :: nat)))
      in opt\<lparr>param_groups := map (\<lambda>g. g\<lparr>group_lr := new_lr\<rparr>) (param_groups opt)\<rparr>)"

section \<open>Top-k accuracy\<close>

text \<open>
  A two-dimensional tensor is the list of its rows, all of one length. Two behaviours
  of the tensor library that the function depends on are taken as a parameter, since
  the library leaves the first open and has changed the second: the order in which
  \<^verbatim>\<open>topk\<close> returns the indices of the \<open>k\<close> largest scores of a row (equal scores may
  come in any order), and whether \<^verbatim>\<open>eq\<close> on a transposed tensor returns a tensor with
  the strides of its operand (torch 1.7 and later) or a contiguous one (earlier).
\<close>

record torch =
  topk_row :: "real list \<Rightarrow> nat \<Rightarrow> nat list"
  eq_keeps_strides :: bool

text \<open>
  \<^verbatim>\<open>output.topk(maxk, 1, True, True)\<close>: the library's choice for each row; it fails
  when \<open>maxk\<close> exceeds the number of columns.
\<close>

definition tensor_topk :: "torch \<Rightarrow> real list list \<Rightarrow> nat \<Rightarrow> py_error + nat list list" where
  "tensor_topk lib output k =
     (if list_all (\<lambda>row. k \<le> length row) output
      then Inr (map (\<lambda>row. topk_row lib row k) output)
      else Inl RuntimeError)"

text \<open>\<^verbatim>\<open>pred.t()\<close>: the transpose of a tensor with \<open>ncols\<close> columns.\<close>

definition tensor_t :: "'a list list \<Rightarrow> nat \<Rightarrow> 'a list list" where
  "tensor_t m ncols = map (\<lambda>j. map (\<lambda>row. row ! j) m) [0..<ncols]"

text \<open>
  \<^verbatim>\<open>target.view(1, -1).expand_as(pred)\<close> for a \<open>pred\<close> of \<open>nrows\<close> rows and \<open>ncols\<close>
  columns: the row of labels is repeated \<open>nrows\<close> times; a single label is broadcast
  along the row; any other length is a shape error.
\<close>

definition expand_as :: "int list \<Rightarrow> nat \<Rightarrow> nat \<Rightarrow> py_error + int list list" where
  "expand_as target nrows ncols =
     (if length target = ncols then Inr (replicate nrows target)
      else if length target = 1 then Inr (replicate nrows (replicate ncols (hd target)))
      else Inl RuntimeError)"

text \<open>\<^verbatim>\<open>pred.eq(...)\<close>, element by element.\<close>

definition tensor_eq :: "nat list list \<Rightarrow> int list list \<Rightarrow> bool list list" where
  "tensor_eq pred tgt = map2 (\<lambda>ps ts. map2 (\<lambda>p t. int p = t) ps ts) pred tgt"

text \<open>
  The loop over \<^verbatim>\<open>topk\<close>, for a \<open>correct\<close> of \<open>ncols\<close> columns (one per sample).
  \<^verbatim>\<open>correct[:k].view(-1)\<close> raises \<^verbatim>\<open>RuntimeError\<close> when the first \<open>k\<close> rows cannot be
  viewed flat: that is so when \<open>correct\<close> has the strides of the transposed \<open>pred\<close>,
  \<open>k\<close> is 2 or more and there are 2 or more samples. \<^verbatim>\<open>.float().sum(0)\<close> counts the
  \<open>True\<close> entries; \<^verbatim>\<open>100.0 / batch_size\<close> raises \<^verbatim>\<open>ZeroDivisionError\<close> for an empty
  batch. The first exception ends the loop.
\<close>

fun accuracy_loop ::
  "torch \<Rightarrow> bool list list \<Rightarrow> nat \<Rightarrow> nat \<Rightarrow> nat list \<Rightarrow> py_error + real list" where
  "accuracy_loop lib correct ncols batch_size [] = Inr []"
| "accuracy_loop lib correct ncols batch_size (k # ks) =
     (if eq_keeps_strides lib \<and> 2 \<le> k \<and> 2 \<le> ncols then Inl RuntimeError
      else if batch_size = 0 then Inl ZeroDivisionError
      else case accuracy_loop lib correct ncols batch_size ks of
             Inl e \<Rightarrow> Inl e
           | Inr res \<Rightarrow>
               Inr (sum_list (map of_bool (concat (take k correct))) * (100 / real batch_size)
                    # res))"

text \<open>
  \<^verbatim>\<open>accuracy(output, target, topk)\<close>. \<^verbatim>\<open>max(topk)\<close> of an empty tuple raises
  \<^verbatim>\<open>ValueError\<close>.
\<close>

definition accuracy ::
  "torch \<Rightarrow> real list list \<Rightarrow> int list \<Rightarrow> nat list \<Rightarrow> py_error + real list" where
  "accuracy lib output target topk =
     (if topk = [] then Inl ValueError
      else
        let maxk = fold max (tl topk) (hd topk);
            batch_size = length target
        in case tensor_topk lib output maxk of
             Inl e \<Rightarrow> Inl e
           | Inr pred \<Rightarrow>
               (case expand_as target maxk (length pred) of
                  Inl e \<Rightarrow> Inl e
                | Inr tgt \<Rightarrow>
                    accuracy_loop lib (tensor_eq (tensor_t pred maxk) tgt) (length pred)
                      batch_size topk))"




text \<open>
  Two rankings, used as instances of the library: largest score first, equal scores
  by rising index in the one and by falling index in the other.
\<close>

definition rank_lower_first :: "real list \<Rightarrow> nat \<Rightarrow> nat list" where
  "rank_lower_first row k = take k (sort_key (\<lambda>i. (- (row ! i), i)) [0..<length row])"


section \<open>Checkpoints, the training state and the epoch loop\<close>

text \<open>
  The checkpoint record \<^verbatim>\<open>{"epoch", "state_dict", "best_prec1"}\<close> over an abstract
  type \<open>'p\<close> of model parameter states.
\<close>

record 'p checkpoint =
  ckpt_epoch :: int
  ckpt_state_dict :: 'p
  ckpt_best_prec1 :: real

text \<open>
  The part of the disk the script touches: checkpoint files by path (\<^verbatim>\<open>torch.save\<close>
  and \<^verbatim>\<open>torch.load\<close> store and return the record as it is) and the existing
  directories. Failures of the operating system are outside the model.
\<close>

record 'p filesystem =
  files :: "string \<rightharpoonup> 'p checkpoint"
  dirs :: "string set"

text \<open>
  What the run prints and writes, in order. Of the printed lines the model keeps the
  messages of the resume block, the summary line \<^verbatim>\<open>" * Prec@1 ..."\<close> of a validation
  pass (with its value) and the final line; the progress lines, the timing meter and
  the TensorBoard calls have no effect on the state and are left out.
\<close>

datatype event =
    Print string
  | Print_loaded string int
  | Print_prec1 real
  | Print_best real
  | Torch_save string
  | Copyfile string string

text \<open>
  The mutable state of \<^verbatim>\<open>main\<close>: the parsed \<^verbatim>\<open>args\<close> (the resume block writes
  \<^verbatim>\<open>args.start_epoch\<close>), the global \<^verbatim>\<open>best_prec1\<close>, the model (its parameter state
  and its training-mode flag), the disk and the output; the optimizer exists from its
  construction on.
\<close>

record 'p globals =
  args :: args
  best_prec1 :: real
  model :: 'p
  training :: bool
  fs :: "'p filesystem"
  trace :: "event list"

record ('p, 'b) state = "'p globals" +
  optimizer :: "'b optimizer"

text \<open>
  The parts of the run that are not in \<^verbatim>\<open>train.py\<close>, taken as parameters: the
  tensor library as above, the network of \<^verbatim>\<open>model.py\<close> (its constructor, given the number of classes, and its
  forward computation, a function of the mode flag, the parameter state and the input
  batch that writes nothing), the loss, the effect of
  \<^verbatim>\<open>zero_grad(); loss.backward(); optimizer.step()\<close> on the parameters and on the
  optimizer state, and the batches that the two loaders yield in each epoch. Library
  calls are taken to return.
\<close>

record ('p, 'x, 'b) net =
  torch_lib :: torch
  WideResNet :: "nat \<Rightarrow> 'p"
  forward :: "bool \<Rightarrow> 'p \<Rightarrow> 'x list \<Rightarrow> real list list"
  criterion :: "real list list \<Rightarrow> int list \<Rightarrow> real"
  sgd_init :: 'b
  sgd_step :: "'b optimizer \<Rightarrow> 'p \<Rightarrow> 'x list \<Rightarrow> int list \<Rightarrow> 'p \<times> 'b"
  train_loader :: "int \<Rightarrow> ('x list \<times> int list) list"
  val_loader :: "int \<Rightarrow> ('x list \<times> int list) list"

text \<open>
  The body of the loop of \<^verbatim>\<open>train\<close> for one batch; \<^verbatim>\<open>input.size(0)\<close> is the
  length of the input batch.
\<close>

definition train_batch ::
  "('p, 'x, 'b) net \<Rightarrow> ('p, 'b) state \<Rightarrow> AverageMeter \<Rightarrow> AverageMeter \<Rightarrow>
     'x list \<times> int list \<Rightarrow> py_error + ('p, 'b) state \<times> AverageMeter \<times> AverageMeter" where
  "train_batch net s losses top1 batch =
     (let input = fst batch;
          target = snd batch;
          output = forward net (training s) (model s) input;
          loss = criterion net output target
      in case accuracy (torch_lib net) output target [1] of
           Inl e \<Rightarrow> Inl e
         | Inr res \<Rightarrow>
             (let prec1 = hd res
              in case update losses loss (real (length input)) of
                   Inl e \<Rightarrow> Inl e
                 | Inr losses' \<Rightarrow>
                     (case update top1 prec1 (real (length input)) of
                        Inl e \<Rightarrow> Inl e
                      | Inr top1' \<Rightarrow>
                          (let stepped = sgd_step net (optimizer s) (model s) input target
                           in Inr (s\<lparr>model := fst stepped,
                                     optimizer := (optimizer s)\<lparr>opt_state := snd stepped\<rparr>\<rparr>,
                                   losses', top1')))))"

fun train_batches ::
  "('p, 'x, 'b) net \<Rightarrow> ('p, 'b) state \<Rightarrow> AverageMeter \<Rightarrow> AverageMeter \<Rightarrow>
     ('x list \<times> int list) list \<Rightarrow> py_error + ('p, 'b) state \<times> AverageMeter \<times> AverageMeter" where
  "train_batches net s losses top1 [] = Inr (s, losses, top1)"
| "train_batches net s losses top1 (batch # batches) =
     (case train_batch net s losses top1 batch of
        Inl e \<Rightarrow> Inl e
      | Inr (s', losses', top1') \<Rightarrow> train_batches net s' losses' top1' batches)"

text \<open>\<^verbatim>\<open>train\<close>: \<^verbatim>\<open>model.train()\<close>, then the loop with fresh meters.\<close>

definition train :: "('p, 'x, 'b) net \<Rightarrow> ('p, 'b) state \<Rightarrow> int \<Rightarrow> py_error + ('p, 'b) state" where
  "train net s epoch =
     (case train_batches net (s\<lparr>training := True\<rparr>) reset reset (train_loader net epoch) of
        Inl e \<Rightarrow> Inl e
      | Inr (s', losses, top1) \<Rightarrow> Inr s')"

text \<open>
  The body of the loop of \<^verbatim>\<open>validate\<close> for one batch. The state is threaded through
  as in \<^verbatim>\<open>train_batch\<close>; the body has no statement that writes it. The autograd
  mode that \<^verbatim>\<open>torch.no_grad()\<close> switches has no counterpart in the model.
\<close>

definition validate_batch ::
  "('p, 'x, 'b) net \<Rightarrow> ('p, 'b) state \<Rightarrow> AverageMeter \<Rightarrow> AverageMeter \<Rightarrow>
     'x list \<times> int list \<Rightarrow> py_error + ('p, 'b) state \<times> AverageMeter \<times> AverageMeter" where
  "validate_batch net s losses top1 batch =
     (let input = fst batch;
          target = snd batch;
          output = forward net (training s) (model s) input;
          loss = criterion net output target
      in case accuracy (torch_lib net) output target [1] of
           Inl e \<Rightarrow> Inl e
         | Inr res \<Rightarrow>
             (let prec1 = hd res
              in case update losses loss (real (length input)) of
                   Inl e \<Rightarrow> Inl e
                 | Inr losses' \<Rightarrow>
                     (case update top1 prec1 (real (length input)) of
                        Inl e \<Rightarrow> Inl e
                      | Inr top1' \<Rightarrow> Inr (s, losses', top1'))))"

fun validate_batches ::
  "('p, 'x, 'b) net \<Rightarrow> ('p, 'b) state \<Rightarrow> AverageMeter \<Rightarrow> AverageMeter \<Rightarrow>
     ('x list \<times> int list) list \<Rightarrow> py_error + ('p, 'b) state \<times> AverageMeter \<times> AverageMeter" where
  "validate_batches net s losses top1 [] = Inr (s, losses, top1)"
| "validate_batches net s losses top1 (batch # batches) =
     (case validate_batch net s losses top1 batch of
        Inl e \<Rightarrow> Inl e
      | Inr (s', losses', top1') \<Rightarrow> validate_batches net s' losses' top1' batches)"

text \<open>
  \<^verbatim>\<open>validate\<close>: \<^verbatim>\<open>model.eval()\<close>, the loop with fresh meters, the summary line, and
  \<^verbatim>\<open>top1.avg\<close> as result.
\<close>

definition validate ::
  "('p, 'x, 'b) net \<Rightarrow> ('p, 'b) state \<Rightarrow> int \<Rightarrow> py_error + real \<times> ('p, 'b) state" where
  "validate net s epoch =
     (case validate_batches net (s\<lparr>training := False\<rparr>) reset reset (val_loader net epoch) of
        Inl e \<Rightarrow> Inl e
      | Inr (s', losses, top1) \<Rightarrow>
          Inr (avg top1, s'\<lparr>trace := trace s' @ [Print_prec1 (avg top1)]\<rparr>))"

text \<open>The two paths that \<^verbatim>\<open>save_checkpoint\<close> writes, for an experiment name.\<close>

definition checkpoint_file :: "string \<Rightarrow> string" where
  "checkpoint_file nm = (''runs/'' @ nm @ ''/'') @ ''checkpoint.pth.tar''"

definition best_file :: "string \<Rightarrow> string" where
  "best_file nm = (''runs/'' @ nm @ ''/'') @ ''model_best.pth.tar''"

text \<open>
  \<^verbatim>\<open>save_checkpoint(state, is_best)\<close> with the default file name: the directory is
  created when missing, the record is saved, and for \<open>is_best\<close> the file is copied to
  the best-model path.
\<close>

definition save_checkpoint ::
  "'p checkpoint \<Rightarrow> bool \<Rightarrow> ('p, 'z) globals_scheme \<Rightarrow> ('p, 'z) globals_scheme" where
  "save_checkpoint st is_best s =
     (let directory = ''runs/'' @ name (args s) @ ''/'';
          fs1 = (if directory \<in> dirs (fs s) then fs s
                 else (fs s)\<lparr>dirs := insert directory (dirs (fs s))\<rparr>);
          filename = directory @ ''checkpoint.pth.tar'';
          fs2 = fs1\<lparr>files := (files fs1)(filename \<mapsto> st)\<rparr>;
          s2 = s\<lparr>fs := fs2, trace := trace s @ [Torch_save filename]\<rparr>
      in if is_best
         then (let dst = (''runs/'' @ name (args s) @ ''/'') @ ''model_best.pth.tar''
               in s2\<lparr>fs := fs2\<lparr>files := (files fs2)(dst := files fs2 filename)\<rparr>,
                       trace := trace s2 @ [Copyfile filename dst]\<rparr>)
         else s2)"

text \<open>
  The resume block of \<^verbatim>\<open>main\<close> (\<^verbatim>\<open>if args.resume: ...\<close>); \<^verbatim>\<open>os.path.isfile\<close> is
  the presence of the path among the files.
\<close>

definition load_checkpoint :: "('p, 'z) globals_scheme \<Rightarrow> ('p, 'z) globals_scheme" where
  "load_checkpoint s =
     (if resume (args s) \<noteq> []
      then (case files (fs s) (resume (args s)) of
              Some checkpoint \<Rightarrow>
                s\<lparr>args := (args s)\<lparr>start_epoch := ckpt_epoch checkpoint\<rparr>,
                   best_prec1 := ckpt_best_prec1 checkpoint,
                   model := ckpt_state_dict checkpoint,
                   trace := trace s @ [Print (''=> loading checkpoint '' @ resume (args s)),
                                       Print_loaded (resume (args s)) (ckpt_epoch checkpoint)]\<rparr>
            | None \<Rightarrow>
                s\<lparr>trace := trace s @ [Print (''=> no checkpoint found at '' @ resume (args s))]\<rparr>)
      else s)"

text \<open>The body of the epoch loop of \<^verbatim>\<open>main\<close>, called with \<^verbatim>\<open>epoch\<close>.\<close>

definition epoch_body ::
  "('p, 'x, 'b) net \<Rightarrow> ('p, 'b) state \<Rightarrow> int \<Rightarrow> py_error + ('p, 'b) state" where
  "epoch_body net s epoch =
     (let s1 = s\<lparr>optimizer := adjust_learning_rate (args s) (optimizer s) (epoch + 1)\<rparr>
      in case train net s1 epoch of
           Inl e \<Rightarrow> Inl e
         | Inr s2 \<Rightarrow>
             (case validate net s2 epoch of
                Inl e \<Rightarrow> Inl e
              | Inr (prec1, s3) \<Rightarrow>
                  (let is_best = prec1 > best_prec1 s3;
                       s4 = s3\<lparr>best_prec1 := max prec1 (best_prec1 s3)\<rparr>
                   in Inr (save_checkpoint
                             \<lparr>ckpt_epoch = epoch + 1,
                              ckpt_state_dict = model s4,
                              ckpt_best_prec1 = best_prec1 s4\<rparr>
                             is_best s4))))"

fun epoch_loop ::
  "('p, 'x, 'b) net \<Rightarrow> ('p, 'b) state \<Rightarrow> int list \<Rightarrow> py_error + ('p, 'b) state" where
  "epoch_loop net s [] = Inr s"
| "epoch_loop net s (epoch # rest) =
     (case epoch_body net s epoch of
        Inl e \<Rightarrow> Inl e
      | Inr s' \<Rightarrow> epoch_loop net s' rest)"

text \<open>
  \<^verbatim>\<open>main\<close>: the assertion on the dataset name, the model, the resume block, the
  optimizer with its single parameter group, the loop over
  \<^verbatim>\<open>range(args.start_epoch, args.epochs)\<close> and the final line.
\<close>

definition main ::
  "('p, 'x, 'b) net \<Rightarrow> args \<Rightarrow> 'p filesystem \<Rightarrow> py_error + ('p, 'b) state" where
  "main net a disk =
     (if \<not> (dataset a = ''cifar10'' \<or> dataset a = ''cifar100'') then Inl AssertionError
      else
        let g0 = \<lparr>args = a, best_prec1 = 0,
                  model = WideResNet net (if dataset a = ''cifar10'' then 10 else 100),
                  training = True, fs = disk, trace = []\<rparr>;
            g = load_checkpoint g0;
            s = \<lparr>args = args g, best_prec1 = best_prec1 g, model = model g,
                 training = training g, fs = fs g, trace = trace g,
                 optimizer = \<lparr>param_groups =
                                 [\<lparr>group_lr = lr (args g), group_momentum = momentum (args g),
                                   group_nesterov = nesterov (args g),
                                   group_weight_decay = weight_decay (args g)\<rparr>],
                               opt_state = sgd_init net\<rparr>\<rparr>
        in case epoch_loop net s [start_epoch (args s)..epochs (args s) - 1] of
             Inl e \<Rightarrow> Inl e
           | Inr s' \<Rightarrow> Inr (s'\<lparr>trace := trace s' @ [Print_best (best_prec1 s')]\<rparr>))"

text \<open>The validation accuracies among the events, in order.\<close>

fun prec1s :: "event list \<Rightarrow> real list" where
  "prec1s [] = []"
| "prec1s (Print_prec1 a # evs) = a # prec1s evs"
| "prec1s (ev # evs) = prec1s evs"

text \<open>
  The events of a run of epochs with validation accuracies \<open>accs\<close>, started with best
  accuracy \<open>b0\<close>, as the claim describes them: in every epoch the summary line and the
  save of the checkpoint, and the copy to the best-model file exactly when the accuracy
  of the epoch is greater than \<open>b0\<close> and than the accuracy of every earlier epoch.
\<close>

definition expected_trace :: "string \<Rightarrow> real \<Rightarrow> real list \<Rightarrow> event list" where
  "expected_trace nm b0 accs =
     concat (map (\<lambda>i. [Print_prec1 (accs ! i), Torch_save (checkpoint_file nm)] @
                       (if accs ! i > Max (insert b0 (set (take i accs)))
                        then [Copyfile (checkpoint_file nm) (best_file nm)] else []))
                 [0..<length accs])"

text \<open>
  A small instance on which the hypotheses of the theorems are met: one real
  parameter, two classes with scores \<open>x\<close> and \<open>p + 1 / 2\<close> (never equal on the data
  below), a step that adds one.
\<close>

definition toy_net :: "(real, real, nat) net" where
  "toy_net = \<lparr>torch_lib = \<lparr>topk_row = rank_lower_first, eq_keeps_strides = True\<rparr>,
     WideResNet = (\<lambda>n. 0),
     forward = (\<lambda>mode p xs. map (\<lambda>x. [x, p + 1 / 2]) xs),
     criterion = (\<lambda>out tgt. 1),
     sgd_init = 0,
     sgd_step = (\<lambda>opt p xs tgt. (p + 1, Suc (opt_state opt))),
     train_loader = (\<lambda>e. [([1], [0])]),
     val_loader = (\<lambda>e. [([1, 3], [1, 0])])\<rparr>"

definition toy_args :: args where
  "toy_args = \<lparr>dataset = ''cifar10'', epochs = 3, start_epoch = 0, lr = 0.1, momentum = 0.9,
     nesterov = True, weight_decay = 0.0005, resume = ''old'', name = ''toy''\<rparr>"

definition toy_disk :: "real filesystem" where
  "toy_disk = \<lparr>files = [''old'' \<mapsto> \<lparr>ckpt_epoch = 1, ckpt_state_dict = 1, ckpt_best_prec1 = 75\<rparr>],
     dirs = {}\<rparr>"

definition toy_state :: "(real, nat) state" where
  "toy_state = \<lparr>args = toy_args, best_prec1 = 0, model = 0, training = True,
     fs = \<lparr>files = Map.empty, dirs = {}\<rparr>, trace = [],
     optimizer = \<lparr>param_groups = [\<lparr>group_lr = 0.1, group_momentum = 0.9,
        group_nesterov = True, group_weight_decay = 0.0005\<rparr>], opt_state = 0\<rparr>\<rparr>"

section \<open>Properties of the running statistic\<close>

lemma update_Inr_iff:
  "update m v n = Inr m' \<longleftrightarrow>
     count m + n \<noteq> 0 \<and>
     m' = \<lparr>val = v, avg = (sum_f m + v * n) / (count m + n),
           sum_f = sum_f m + v * n, count = count m + n\<rparr>"
  by (auto simp: update_def Let_def)

lemma update_Inl_iff:
  "update m v n = Inl e \<longleftrightarrow> count m + n = 0 \<and> e = ZeroDivisionError"
  by (auto simp: update_def Let_def)

lemma update_all_error:
  "update_all m calls = Inl e \<Longrightarrow> e = ZeroDivisionError"
  by (induction m calls rule: update_all.induct)
     (auto simp: update_Inl_iff split: sum.splits)

lemma update_all_fields:
  "0 \<notin> set (cumulative_weights (count m) calls) \<Longrightarrow>
   \<exists>m'. update_all m calls = Inr m' \<and>
        sum_f m' = sum_f m + weighted_sum calls \<and>
        count m' = count m + total_weight calls \<and>
        (calls \<noteq> [] \<longrightarrow> val m' = fst (last calls) \<and> avg m' = sum_f m' / count m')"
proof (induction m calls rule: update_all.induct)
  case (1 m)
  then show ?case by (simp add: weighted_sum_def total_weight_def)
next
  case (2 m v n calls)
  let ?m1 = "\<lparr>val = v, avg = (sum_f m + v * n) / (count m + n),
              sum_f = sum_f m + v * n, count = count m + n\<rparr>"
  from "2.prems" have nz: "count m + n \<noteq> 0" by auto
  then have step: "update m v n = Inr ?m1" by (simp add: update_Inr_iff)
  from "2.prems" have "0 \<notin> set (cumulative_weights (count ?m1) calls)" by simp
  from "2.IH"[OF step this] obtain m' where
    run: "update_all ?m1 calls = Inr m'" and
    s: "sum_f m' = sum_f ?m1 + weighted_sum calls" and
    c: "count m' = count ?m1 + total_weight calls" and
    l: "calls \<noteq> [] \<longrightarrow> val m' = fst (last calls) \<and> avg m' = sum_f m' / count m'"
    by blast
  have "update_all m ((v, n) # calls) = Inr m'" using step run by simp
  moreover have "sum_f m' = sum_f m + weighted_sum ((v, n) # calls)"
    using s by (simp add: weighted_sum_def)
  moreover have "count m' = count m + total_weight ((v, n) # calls)"
    using c by (simp add: total_weight_def)
  moreover have "val m' = fst (last ((v, n) # calls)) \<and> avg m' = sum_f m' / count m'"
  proof (cases calls)
    case Nil
    then show ?thesis using run by auto
  next
    case (Cons c cs)
    then show ?thesis using l by simp
  qed
  ultimately show ?case by blast
qed

lemma update_all_Inr_count:
  "update_all m calls = Inr m' \<Longrightarrow>
     count m' = count m + total_weight calls \<and> (calls \<noteq> [] \<longrightarrow> count m' \<noteq> 0)"
proof (induction m calls arbitrary: m' rule: update_all.induct)
  case (1 m)
  then show ?case by (simp add: total_weight_def)
next
  case (2 m v n calls)
  from "2.prems" obtain m1 where step: "update m v n = Inr m1"
    and run: "update_all m1 calls = Inr m'"
    by (auto split: sum.splits)
  from step have c1: "count m1 = count m + n" and nz: "count m1 \<noteq> 0"
    by (auto simp: update_Inr_iff)
  from "2.IH"[OF step run] have
    c: "count m' = count m1 + total_weight calls" and
    l: "calls \<noteq> [] \<longrightarrow> count m' \<noteq> 0"
    by blast+
  have "count m' = count m + total_weight ((v, n) # calls)"
    using c c1 by (simp add: total_weight_def)
  moreover have "count m' \<noteq> 0"
  proof (cases calls)
    case Nil
    then show ?thesis using run nz by simp
  next
    case (Cons c cs)
    then show ?thesis using l by simp
  qed
  ultimately show ?case by simp
qed

text \<open>
  Claim C2, as amended. For every non-empty sequence of calls
  \<^verbatim>\<open>update(v1, w1), ..., update(vn, wn)\<close> on a freshly reset meter in which the
  cumulative weight after each call is non-zero, every call returns and after the
  last one \<^verbatim>\<open>val\<close> is \<open>vn\<close>, \<^verbatim>\<open>avg\<close> is \<open>(\<Sum> vi * wi) / (\<Sum> wi)\<close>, \<^verbatim>\<open>sum\<close> is
  \<open>\<Sum> vi * wi\<close> and \<^verbatim>\<open>count\<close> is \<open>\<Sum> wi\<close>.
\<close>

theorem update_all_running_average:
  assumes "calls \<noteq> []"
    and "0 \<notin> set (cumulative_weights 0 calls)"
  shows "update_all reset calls =
           Inr \<lparr>val = fst (last calls),
                avg = weighted_sum calls / total_weight calls,
                sum_f = weighted_sum calls,
                count = total_weight calls\<rparr>"
proof -
  have "0 \<notin> set (cumulative_weights (count reset) calls)"
    using assms(2) by (simp add: reset_def)
  from update_all_fields[OF this] obtain m' where
    run: "update_all reset calls = Inr m'" and
    s: "sum_f m' = weighted_sum calls" and
    c: "count m' = total_weight calls" and
    l: "val m' = fst (last calls)" "avg m' = sum_f m' / count m'"
    using assms(1) by (auto simp: reset_def)
  have "m' = \<lparr>val = fst (last calls), avg = weighted_sum calls / total_weight calls,
              sum_f = weighted_sum calls, count = total_weight calls\<rparr>"
    using s c l by simp
  with run show ?thesis by simp
qed

theorem update_all_running_average_witness:
  "[(2, 1), (4, 3 :: real)] \<noteq> [] \<and>
   0 \<notin> set (cumulative_weights 0 [(2, 1), (4, 3)]) \<and>
   update_all reset [(2, 1), (4, 3)] = Inr \<lparr>val = 4, avg = 7 / 2, sum_f = 14, count = 4\<rparr>"
  using update_all_running_average [of "[(2, 1), (4, 3)]"]
  by (simp add: weighted_sum_def total_weight_def)

text \<open>
  Claim C2 as stated fails: a call whose cumulative weight is zero raises, so the
  sequence \<^verbatim>\<open>update(5, 0), update(3, 2)\<close> never reaches its last call, although the
  total weight is 2.
\<close>

theorem update_all_zero_prefix_counterexample:
  "update_all reset [(5, 0), (3, 2)] = Inl ZeroDivisionError \<and>
   total_weight [(5, 0), (3, 2)] = 2"
  by (simp add: update_def reset_def total_weight_def)

text \<open>
  Claim C10. \<^verbatim>\<open>update\<close> with weight 0 on a freshly reset meter raises
  \<^verbatim>\<open>ZeroDivisionError\<close>; a call raises exactly when the cumulative weight after it
  is zero; a non-empty sequence of calls on a fresh meter whose weights sum to zero
  ends in that exception; and for weights that are counts (not negative) a call
  returns exactly when the cumulative weight after it is positive.
\<close>

theorem update_zero_count_raises:
  "update reset v 0 = Inl ZeroDivisionError \<and>
   (update m v n = Inl ZeroDivisionError \<longleftrightarrow> count m + n = 0) \<and>
   (calls \<noteq> [] \<and> total_weight calls = 0 \<longrightarrow>
      update_all reset calls = Inl ZeroDivisionError) \<and>
   (0 \<le> count m \<and> 0 \<le> n \<longrightarrow> ((\<exists>m'. update m v n = Inr m') \<longleftrightarrow> 0 < count m + n))"
proof -
  have a: "update reset v 0 = Inl ZeroDivisionError"
    by (simp add: update_def reset_def)
  have b: "update m v n = Inl ZeroDivisionError \<longleftrightarrow> count m + n = 0"
    by (simp add: update_Inl_iff)
  have c: "update_all reset calls = Inl ZeroDivisionError"
    if ne: "calls \<noteq> []" and z: "total_weight calls = 0"
  proof (cases "update_all reset calls")
    case (Inl e)
    then show ?thesis using update_all_error by blast
  next
    case (Inr m')
    from update_all_Inr_count[OF this] ne z have False
      by (simp add: reset_def)
    then show ?thesis ..
  qed
  have d: "(\<exists>m'. update m v n = Inr m') \<longleftrightarrow> 0 < count m + n"
    if "0 \<le> count m" and "0 \<le> n"
    using that by (auto simp: update_Inr_iff)
  from a b c d show ?thesis by blast
qed

theorem update_zero_count_raises_witness:
  "update reset 7 0 = Inl ZeroDivisionError \<and> count reset + 0 = 0 \<and>
   [(1, 1), (2, - 1 :: real)] \<noteq> [] \<and> total_weight [(1, 1), (2, - 1)] = 0 \<and>
   update_all reset [(1, 1), (2, - 1)] = Inl ZeroDivisionError \<and>
   0 \<le> count reset \<and> (0 :: real) \<le> 2 \<and> 0 < count reset + 2 \<and>
   (\<exists>m'. update reset 7 2 = Inr m')"
  using update_zero_count_raises [of 7 reset 0 "[(1, 1), (2, - 1)]"]
    update_zero_count_raises [of 7 reset 2 "[(1, 1), (2, - 1)]"]
  by (simp add: total_weight_def reset_def)

section \<open>The learning-rate schedule\<close>

lemma lr_multiplier:
  "(0.2 ^ (of_bool (60 \<le> e) :: nat)) * (0.2 ^ (of_bool (120 \<le> e) :: nat))
     * (0.2 ^ (of_bool (160 \<le> e) :: nat)) =
   (if e < 60 then 1 else if e < 120 then 0.2 else if e < 160 then 0.04 else 0.008 :: real)"
  for e :: int
  by simp

lemma adjust_learning_rate_eq:
  "adjust_learning_rate a opt e =
     opt\<lparr>param_groups :=
       map (\<lambda>g. g\<lparr>group_lr :=
              lr a * (if e < 60 then 1 else if e < 120 then 0.2
                      else if e < 160 then 0.04 else 0.008)\<rparr>)
           (param_groups opt)\<rparr>"
  unfolding adjust_learning_rate_def Let_def lr_multiplier
  by simp

section \<open>Top-k accuracy: the ranking and the count\<close>
















lemma accuracy_loop_error:
  "accuracy_loop lib correct ncols batch_size ks = Inl e \<Longrightarrow>
     e = RuntimeError \<or> e = ZeroDivisionError"
  by (induction ks arbitrary: e) (auto split: if_splits sum.splits)

lemma accuracy_loop_nonneg:
  "accuracy_loop lib correct ncols batch_size ks = Inr res \<Longrightarrow> list_all (\<lambda>r. 0 \<le> r) res"
proof (induction ks arbitrary: res)
  case Nil
  then show ?case by simp
next
  case (Cons k ks)
  have "0 \<le> sum_list (map of_bool bs :: real list)" for bs
    by (induction bs) auto
  with Cons show ?case
    by (auto split: if_splits sum.splits)
qed





section \<open>Frame and result lemmas for the passes\<close>

lemma save_checkpoint_simps:
  "args (save_checkpoint st is_best s) = args s"
  "best_prec1 (save_checkpoint st is_best s) = best_prec1 s"
  "model (save_checkpoint st is_best s) = model s"
  "training (save_checkpoint st is_best s) = training s"
  "trace (save_checkpoint st is_best s) =
     trace s @ Torch_save (checkpoint_file (name (args s))) #
       (if is_best then [Copyfile (checkpoint_file (name (args s))) (best_file (name (args s)))]
        else [])"
  by (simp_all add: save_checkpoint_def Let_def checkpoint_file_def best_file_def)

lemma save_checkpoint_file:
  "nm = name (args s) \<Longrightarrow>
     files (fs (save_checkpoint st is_best s)) (checkpoint_file nm) = Some st"
  by (simp add: save_checkpoint_def Let_def checkpoint_file_def)

lemma save_checkpoint_optimizer:
  "optimizer (save_checkpoint st is_best s) = optimizer s"
  by (simp add: save_checkpoint_def Let_def)

lemma save_checkpoint_best_file:
  "nm = name (args s) \<Longrightarrow>
     files (fs (save_checkpoint st is_best s)) (best_file nm) =
       (if is_best then Some st else files (fs s) (best_file nm))"
  by (simp add: save_checkpoint_def Let_def checkpoint_file_def best_file_def)

lemma of_bool_sum_nonneg: "0 \<le> sum_list (map of_bool bs :: real list)"
  by (induction bs) auto

lemma accuracy_top1_nonneg:
  "accuracy lib output target [1] = Inr res \<Longrightarrow> 0 \<le> hd res"
  by (auto simp: accuracy_def Let_def of_bool_sum_nonneg split: sum.splits if_splits
      intro!: mult_nonneg_nonneg divide_nonneg_nonneg)

lemma accuracy_not_assertion:
  "accuracy lib output target topk \<noteq> Inl AssertionError"
  by (auto simp: accuracy_def Let_def tensor_topk_def expand_as_def
      split: sum.splits if_splits dest: accuracy_loop_error)

lemma update_not_assertion: "update m v n \<noteq> Inl AssertionError"
  by (simp add: update_Inl_iff)

lemma update_nonneg:
  "update m v n = Inr m' \<Longrightarrow> 0 \<le> v \<Longrightarrow> 0 \<le> n \<Longrightarrow> 0 \<le> sum_f m \<Longrightarrow> 0 \<le> count m \<Longrightarrow>
     0 \<le> sum_f m' \<and> 0 \<le> count m' \<and> 0 \<le> avg m'"
  by (auto simp: update_Inr_iff)

lemma validate_batch_frame:
  "validate_batch net s losses top1 batch = Inr (s', losses', top1') \<Longrightarrow> s' = s"
  by (auto simp: validate_batch_def Let_def split: sum.splits)

lemma validate_batch_nonneg:
  "validate_batch net s losses top1 batch = Inr (s', losses', top1') \<Longrightarrow>
     0 \<le> sum_f top1 \<Longrightarrow> 0 \<le> count top1 \<Longrightarrow>
     0 \<le> sum_f top1' \<and> 0 \<le> count top1' \<and> 0 \<le> avg top1'"
proof -
  assume run: "validate_batch net s losses top1 batch = Inr (s', losses', top1')"
    and nn: "0 \<le> sum_f top1" "0 \<le> count top1"
  from run obtain res where
    acc: "accuracy (torch_lib net) (forward net (training s) (model s) (fst batch))
            (snd batch) [1] = Inr res"
    and upd: "update top1 (hd res) (real (length (fst batch))) = Inr top1'"
    by (auto simp: validate_batch_def Let_def split: sum.splits)
  from accuracy_top1_nonneg [OF acc] have "0 \<le> hd res" .
  from update_nonneg [OF upd this _ nn] show ?thesis by simp
qed

lemma validate_batch_not_assertion:
  "validate_batch net s losses top1 batch \<noteq> Inl AssertionError"
  by (auto simp: validate_batch_def Let_def accuracy_not_assertion update_not_assertion
      split: sum.splits)

lemma validate_batches_frame:
  "validate_batches net s losses top1 batches = Inr (s', losses', top1') \<Longrightarrow> s' = s"
proof (induction batches arbitrary: s losses top1)
  case Nil
  then show ?case by simp
next
  case (Cons batch batches)
  from Cons.prems obtain s1 l1 t1 where
    step: "validate_batch net s losses top1 batch = Inr (s1, l1, t1)" and
    rest: "validate_batches net s1 l1 t1 batches = Inr (s', losses', top1')"
    by (auto split: sum.splits)
  from validate_batch_frame [OF step] Cons.IH [OF rest] show ?case by simp
qed

lemma validate_batches_nonneg:
  "validate_batches net s losses top1 batches = Inr (s', losses', top1') \<Longrightarrow>
     0 \<le> sum_f top1 \<Longrightarrow> 0 \<le> count top1 \<Longrightarrow> 0 \<le> avg top1 \<Longrightarrow> 0 \<le> avg top1'"
proof (induction batches arbitrary: s losses top1)
  case Nil
  then show ?case by simp
next
  case (Cons batch batches)
  from Cons.prems(1) obtain s1 l1 t1 where
    step: "validate_batch net s losses top1 batch = Inr (s1, l1, t1)" and
    rest: "validate_batches net s1 l1 t1 batches = Inr (s', losses', top1')"
    by (auto split: sum.splits)
  from validate_batch_nonneg [OF step Cons.prems(2,3)]
  show ?case using Cons.IH [OF rest] by simp
qed

lemma validate_batches_not_assertion:
  "validate_batches net s losses top1 batches \<noteq> Inl AssertionError"
  by (induction batches arbitrary: s losses top1)
     (auto simp: validate_batch_not_assertion split: sum.splits)

lemma validate_result:
  assumes "validate net s epoch = Inr (prec1, s')"
  shows "s' = s\<lparr>training := False, trace := trace s @ [Print_prec1 prec1]\<rparr>" and "0 \<le> prec1"
proof -
  from assms obtain s1 losses top1 where
    run: "validate_batches net (s\<lparr>training := False\<rparr>) reset reset (val_loader net epoch)
            = Inr (s1, losses, top1)" and
    p: "prec1 = avg top1" and s': "s' = s1\<lparr>trace := trace s1 @ [Print_prec1 (avg top1)]\<rparr>"
    by (auto simp: validate_def split: sum.splits)
  from validate_batches_frame [OF run] have "s1 = s\<lparr>training := False\<rparr>" .
  then show "s' = s\<lparr>training := False, trace := trace s @ [Print_prec1 prec1]\<rparr>"
    using p s' by simp
  from validate_batches_nonneg [OF run] show "0 \<le> prec1"
    using p by (simp add: reset_def)
qed

lemma validate_not_assertion: "validate net s epoch \<noteq> Inl AssertionError"
  using validate_batches_not_assertion [of net "s\<lparr>training := False\<rparr>" reset reset "val_loader net epoch"]
  by (auto simp: validate_def split: sum.splits)

lemma train_batch_frame:
  "train_batch net s losses top1 batch = Inr (s', losses', top1') \<Longrightarrow>
     args s' = args s \<and> best_prec1 s' = best_prec1 s \<and> fs s' = fs s \<and> trace s' = trace s \<and>
     training s' = training s \<and> param_groups (optimizer s') = param_groups (optimizer s)"
  by (auto simp: train_batch_def Let_def split: sum.splits)

lemma train_batch_not_assertion:
  "train_batch net s losses top1 batch \<noteq> Inl AssertionError"
  by (auto simp: train_batch_def Let_def accuracy_not_assertion update_not_assertion
      split: sum.splits)

lemma train_batches_frame:
  "train_batches net s losses top1 batches = Inr (s', losses', top1') \<Longrightarrow>
     args s' = args s \<and> best_prec1 s' = best_prec1 s \<and> fs s' = fs s \<and> trace s' = trace s \<and>
     training s' = training s \<and> param_groups (optimizer s') = param_groups (optimizer s)"
proof (induction batches arbitrary: s losses top1)
  case Nil
  then show ?case by simp
next
  case (Cons batch batches)
  from Cons.prems obtain s1 l1 t1 where
    step: "train_batch net s losses top1 batch = Inr (s1, l1, t1)" and
    rest: "train_batches net s1 l1 t1 batches = Inr (s', losses', top1')"
    by (auto split: sum.splits)
  from train_batch_frame [OF step] Cons.IH [OF rest] show ?case by simp
qed

lemma train_batches_not_assertion:
  "train_batches net s losses top1 batches \<noteq> Inl AssertionError"
  by (induction batches arbitrary: s losses top1)
     (auto simp: train_batch_not_assertion split: sum.splits)

lemma train_frame:
  "train net s epoch = Inr s' \<Longrightarrow>
     args s' = args s \<and> best_prec1 s' = best_prec1 s \<and> fs s' = fs s \<and> trace s' = trace s \<and>
     param_groups (optimizer s') = param_groups (optimizer s)"
  by (auto simp: train_def split: sum.splits dest!: train_batches_frame)

lemma train_not_assertion: "train net s epoch \<noteq> Inl AssertionError"
  using train_batches_not_assertion [of net "s\<lparr>training := True\<rparr>" reset reset "train_loader net epoch"]
  by (auto simp: train_def split: sum.splits)

lemma Max_insert_insert:
  "finite S \<Longrightarrow> Max (insert b (insert a S)) = Max (insert (max a b) S)"
  for a b :: real
proof (cases "S = {}")
  case True
  then show ?thesis by (simp add: max.commute)
next
  case False
  assume "finite S"
  with False show ?thesis by (simp add: max.assoc max.left_commute max.commute)
qed

lemma expected_trace_Nil: "expected_trace nm b0 [] = []"
  by (simp add: expected_trace_def)

lemma expected_trace_Cons:
  "expected_trace nm b0 (a # accs) =
     [Print_prec1 a, Torch_save (checkpoint_file nm)] @
     (if a > b0 then [Copyfile (checkpoint_file nm) (best_file nm)] else []) @
     expected_trace nm (max a b0) accs"
proof -
  have upt: "[0..<length (a # accs)] = 0 # map Suc [0..<length accs]"
    by (simp add: upt_conv_Cons map_Suc_upt del: upt_Suc)
  have mx: "Max (insert b0 (set (take (Suc i) (a # accs)))) =
            Max (insert (max a b0) (set (take i accs)))" for i
    using Max_insert_insert [of "set (take i accs)" b0 a] by simp
  have "map (\<lambda>i. [Print_prec1 ((a # accs) ! i), Torch_save (checkpoint_file nm)] @
                (if (a # accs) ! i > Max (insert b0 (set (take i (a # accs))))
                 then [Copyfile (checkpoint_file nm) (best_file nm)] else []))
          (map Suc [0..<length accs]) =
        map (\<lambda>i. [Print_prec1 (accs ! i), Torch_save (checkpoint_file nm)] @
                (if accs ! i > Max (insert (max a b0) (set (take i accs)))
                 then [Copyfile (checkpoint_file nm) (best_file nm)] else []))
          [0..<length accs]"
    unfolding map_map o_def mx nth_Cons_Suc ..
  then show ?thesis
    unfolding expected_trace_def upt
    by (simp only: list.map concat.simps nth_Cons_0 take_0 list.set append_assoc
                   Max_singleton insert_is_Un [symmetric])
qed

lemma prec1s_append: "prec1s (xs @ ys) = prec1s xs @ prec1s ys"
  by (induction xs rule: prec1s.induct) simp_all

lemma prec1s_expected_trace: "prec1s (expected_trace nm b0 accs) = accs"
  by (induction accs arbitrary: b0) (simp_all add: expected_trace_Nil expected_trace_Cons)

lemma epoch_body_result:
  assumes "epoch_body net s epoch = Inr s'"
  shows "\<exists>a. 0 \<le> a \<and>
           trace s' = trace s @ [Print_prec1 a, Torch_save (checkpoint_file (name (args s)))] @
             (if a > best_prec1 s
              then [Copyfile (checkpoint_file (name (args s))) (best_file (name (args s)))]
              else []) \<and>
           best_prec1 s' = max a (best_prec1 s) \<and>
           args s' = args s \<and>
           files (fs s') (checkpoint_file (name (args s))) =
             Some \<lparr>ckpt_epoch = epoch + 1, ckpt_state_dict = model s',
                   ckpt_best_prec1 = best_prec1 s'\<rparr>"
proof -
  let ?s1 = "s\<lparr>optimizer := adjust_learning_rate (args s) (optimizer s) (epoch + 1)\<rparr>"
  from assms obtain s2 a s3 where
    tr: "train net ?s1 epoch = Inr s2" and
    va: "validate net s2 epoch = Inr (a, s3)" and
    s': "s' = save_checkpoint
                \<lparr>ckpt_epoch = epoch + 1,
                 ckpt_state_dict = model (s3\<lparr>best_prec1 := max a (best_prec1 s3)\<rparr>),
                 ckpt_best_prec1 = best_prec1 (s3\<lparr>best_prec1 := max a (best_prec1 s3)\<rparr>)\<rparr>
                (a > best_prec1 s3) (s3\<lparr>best_prec1 := max a (best_prec1 s3)\<rparr>)"
    by (auto simp: epoch_body_def Let_def split: sum.splits)
  from train_frame [OF tr] have f2:
    "args s2 = args s" "best_prec1 s2 = best_prec1 s" "trace s2 = trace s"
    by simp_all
  from validate_result [OF va] have
    s3: "s3 = s2\<lparr>training := False, trace := trace s2 @ [Print_prec1 a]\<rparr>" and nn: "0 \<le> a"
    by simp_all
  have f3: "args s3 = args s" "best_prec1 s3 = best_prec1 s" "trace s3 = trace s @ [Print_prec1 a]"
    using s3 f2 by simp_all
  show ?thesis
    using nn f3 by (intro exI [of _ a]) (simp add: s' save_checkpoint_simps save_checkpoint_file)
qed

lemma epoch_loop_result:
  assumes "epoch_loop net s es = Inr s'"
  shows "\<exists>accs. length accs = length es \<and> (\<forall>a\<in>set accs. 0 \<le> a) \<and>
           trace s' = trace s @ expected_trace (name (args s)) (best_prec1 s) accs \<and>
           best_prec1 s' = Max (insert (best_prec1 s) (set accs)) \<and>
           args s' = args s"
  using assms
proof (induction es arbitrary: s)
  case Nil
  then show ?case by (simp add: expected_trace_Nil)
next
  case (Cons epoch es)
  from Cons.prems obtain s1 where
    body: "epoch_body net s epoch = Inr s1" and rest: "epoch_loop net s1 es = Inr s'"
    by (auto split: sum.splits)
  from epoch_body_result [OF body] obtain a where
    nn: "0 \<le> a" and
    t1: "trace s1 = trace s @ [Print_prec1 a, Torch_save (checkpoint_file (name (args s)))] @
           (if a > best_prec1 s
            then [Copyfile (checkpoint_file (name (args s))) (best_file (name (args s)))]
            else [])" and
    b1: "best_prec1 s1 = max a (best_prec1 s)" and a1: "args s1 = args s"
    by blast
  from Cons.IH [OF rest] obtain accs where
    len: "length accs = length es" and pos: "\<forall>a\<in>set accs. 0 \<le> a" and
    t': "trace s' = trace s1 @ expected_trace (name (args s1)) (best_prec1 s1) accs" and
    b': "best_prec1 s' = Max (insert (best_prec1 s1) (set accs))" and a': "args s' = args s1"
    by blast
  have "trace s' = trace s @ expected_trace (name (args s)) (best_prec1 s) (a # accs)"
    by (simp add: t' t1 b1 a1 expected_trace_Cons)
  moreover have "best_prec1 s' = Max (insert (best_prec1 s) (set (a # accs)))"
    using Max_insert_insert [of "set accs" "best_prec1 s" a] by (simp add: b' b1)
  ultimately show ?case
    using len pos nn a' a1 by (intro exI [of _ "a # accs"]) simp
qed

section \<open>The epoch loop\<close>

lemma toy_loop_value:
  "map_sum id (\<lambda>s. (trace s, best_prec1 s)) (epoch_loop toy_net toy_state [0, 1, 2]) =
     Inr ([Print_prec1 100, Torch_save ''runs/toy/checkpoint.pth.tar'',
           Copyfile ''runs/toy/checkpoint.pth.tar'' ''runs/toy/model_best.pth.tar'',
           Print_prec1 100, Torch_save ''runs/toy/checkpoint.pth.tar'',
           Print_prec1 50, Torch_save ''runs/toy/checkpoint.pth.tar''], 100)"
  by code_simp

lemma toy_loop_runs: "\<not> isl (epoch_loop toy_net toy_state [0, 1, 2])"
  using toy_loop_value by (cases "epoch_loop toy_net toy_state [0, 1, 2]") simp_all

lemma toy_main_runs: "\<not> isl (main toy_net toy_args toy_disk)"
  by code_simp

lemma toy_validate_runs: "\<not> isl (validate toy_net toy_state 0)"
  by code_simp

lemma not_isl_Inr: "\<not> isl x \<Longrightarrow> \<exists>y. x = Inr y"
  by (cases x) simp_all

lemma epoch_loop_first:
  "\<not> isl (epoch_loop net s (epoch # es)) \<Longrightarrow> \<exists>s'. epoch_body net s epoch = Inr s'"
  by (cases "epoch_body net s epoch") simp_all

lemma epoch_body_not_assertion: "epoch_body net s epoch \<noteq> Inl AssertionError"
  by (auto simp: epoch_body_def Let_def train_not_assertion validate_not_assertion
      split: sum.splits)

lemma epoch_loop_not_assertion: "epoch_loop net s es \<noteq> Inl AssertionError"
  by (induction es arbitrary: s) (auto simp: epoch_body_not_assertion split: sum.splits)

lemma load_checkpoint_best:
  "best_prec1 (load_checkpoint g) =
     (if resume (args g) \<noteq> []
      then (case files (fs g) (resume (args g)) of
              Some c \<Rightarrow> ckpt_best_prec1 c | None \<Rightarrow> best_prec1 g)
      else best_prec1 g)"
  by (simp add: load_checkpoint_def split: option.splits)

lemma load_checkpoint_trace:
  "prec1s (trace (load_checkpoint g)) = prec1s (trace g)"
  by (simp add: load_checkpoint_def prec1s_append split: option.splits)

lemma epoch_body_files:
  assumes "epoch_body net s epoch = Inr s'"
  shows "\<exists>s2 s3 prec1.
           train net (s\<lparr>optimizer := adjust_learning_rate (args s) (optimizer s) (epoch + 1)\<rparr>)
             epoch = Inr s2 \<and>
           validate net s2 epoch = Inr (prec1, s3) \<and>
           files (fs s') (checkpoint_file (name (args s))) =
             Some \<lparr>ckpt_epoch = epoch + 1, ckpt_state_dict = model s2,
                   ckpt_best_prec1 = max prec1 (best_prec1 s)\<rparr> \<and>
           files (fs s') (best_file (name (args s))) =
             (if prec1 > best_prec1 s
              then Some \<lparr>ckpt_epoch = epoch + 1, ckpt_state_dict = model s2,
                         ckpt_best_prec1 = max prec1 (best_prec1 s)\<rparr>
              else files (fs s) (best_file (name (args s))))"
proof -
  let ?s1 = "s\<lparr>optimizer := adjust_learning_rate (args s) (optimizer s) (epoch + 1)\<rparr>"
  from assms obtain s2 a s3 where
    tr: "train net ?s1 epoch = Inr s2" and
    va: "validate net s2 epoch = Inr (a, s3)" and
    s': "s' = save_checkpoint
                \<lparr>ckpt_epoch = epoch + 1,
                 ckpt_state_dict = model (s3\<lparr>best_prec1 := max a (best_prec1 s3)\<rparr>),
                 ckpt_best_prec1 = best_prec1 (s3\<lparr>best_prec1 := max a (best_prec1 s3)\<rparr>)\<rparr>
                (a > best_prec1 s3) (s3\<lparr>best_prec1 := max a (best_prec1 s3)\<rparr>)"
    by (auto simp: epoch_body_def Let_def split: sum.splits)
  from train_frame [OF tr] have f2:
    "args s2 = args s" "best_prec1 s2 = best_prec1 s" "fs s2 = fs s"
    by simp_all
  from validate_result(1) [OF va] have
    s3: "s3 = s2\<lparr>training := False, trace := trace s2 @ [Print_prec1 a]\<rparr>" .
  have f3: "args s3 = args s" "best_prec1 s3 = best_prec1 s" "fs s3 = fs s" "model s3 = model s2"
    using s3 f2 by simp_all
  have "files (fs s') (checkpoint_file (name (args s))) =
          Some \<lparr>ckpt_epoch = epoch + 1, ckpt_state_dict = model s2,
                ckpt_best_prec1 = max a (best_prec1 s)\<rparr>"
    using f3 by (simp add: s' save_checkpoint_file)
  moreover have "files (fs s') (best_file (name (args s))) =
          (if a > best_prec1 s
           then Some \<lparr>ckpt_epoch = epoch + 1, ckpt_state_dict = model s2,
                      ckpt_best_prec1 = max a (best_prec1 s)\<rparr>
           else files (fs s) (best_file (name (args s))))"
    using f3 by (simp add: s' save_checkpoint_best_file)
  ultimately show ?thesis using tr va by blast
qed

text \<open>
  Claim C3. The body of the epoch loop, when it returns, has saved the checkpoint
  record of the epoch at the checkpoint path, and the best-model path holds that
  record exactly when the validation accuracy of the epoch is strictly greater than
  \<^verbatim>\<open>best_prec1\<close> before the epoch; otherwise it holds what it held. Over a whole loop
  the events are, epoch by epoch, the validation summary, the save of the checkpoint
  (in every epoch), and the copy to the best-model file exactly in the epochs whose
  accuracy is strictly greater than the best accuracy recorded before the loop and than
  the accuracy of every earlier epoch of the loop; an equal accuracy gives no copy.
\<close>

theorem best_file_copied_iff_strictly_better:
  "(epoch_body net s epoch = Inr s1 \<longrightarrow>
      (\<exists>s2 s3 prec1.
         train net (s\<lparr>optimizer := adjust_learning_rate (args s) (optimizer s) (epoch + 1)\<rparr>)
           epoch = Inr s2 \<and>
         validate net s2 epoch = Inr (prec1, s3) \<and>
         files (fs s1) (checkpoint_file (name (args s))) =
           Some \<lparr>ckpt_epoch = epoch + 1, ckpt_state_dict = model s2,
                 ckpt_best_prec1 = max prec1 (best_prec1 s)\<rparr> \<and>
         files (fs s1) (best_file (name (args s))) =
           (if prec1 > best_prec1 s
            then Some \<lparr>ckpt_epoch = epoch + 1, ckpt_state_dict = model s2,
                       ckpt_best_prec1 = max prec1 (best_prec1 s)\<rparr>
            else files (fs s) (best_file (name (args s)))))) \<and>
   (epoch_loop net s es = Inr s' \<longrightarrow>
      (\<exists>accs. length accs = length es \<and>
         trace s' = trace s @ expected_trace (name (args s)) (best_prec1 s) accs))"
proof -
  have one: "\<exists>accs. length accs = length es \<and>
         trace s' = trace s @ expected_trace (name (args s)) (best_prec1 s) accs"
    if "epoch_loop net s es = Inr s'"
    using epoch_loop_result [OF that] by blast
  from epoch_body_files [of net s epoch s1] one show ?thesis by blast
qed

theorem best_file_copied_iff_strictly_better_witness:
  "\<exists>s' s1. epoch_loop toy_net toy_state [0, 1, 2] = Inr s' \<and>
        trace s' =
          [Print_prec1 100, Torch_save ''runs/toy/checkpoint.pth.tar'',
           Copyfile ''runs/toy/checkpoint.pth.tar'' ''runs/toy/model_best.pth.tar'',
           Print_prec1 100, Torch_save ''runs/toy/checkpoint.pth.tar'',
           Print_prec1 50, Torch_save ''runs/toy/checkpoint.pth.tar''] \<and>
        (\<exists>accs. length accs = length [0, 1, 2 :: int] \<and>
           trace s' = trace toy_state @
             expected_trace (name (args toy_state)) (best_prec1 toy_state) accs) \<and>
        epoch_body toy_net toy_state 0 = Inr s1 \<and>
        (\<exists>s2 s3 prec1.
           validate toy_net s2 0 = Inr (prec1, s3) \<and>
           files (fs s1) (checkpoint_file (name (args toy_state))) =
             Some \<lparr>ckpt_epoch = 0 + 1, ckpt_state_dict = model s2,
                   ckpt_best_prec1 = max prec1 (best_prec1 toy_state)\<rparr> \<and>
           files (fs s1) (best_file (name (args toy_state))) =
             (if prec1 > best_prec1 toy_state
              then Some \<lparr>ckpt_epoch = 0 + 1, ckpt_state_dict = model s2,
                         ckpt_best_prec1 = max prec1 (best_prec1 toy_state)\<rparr>
              else files (fs toy_state) (best_file (name (args toy_state)))))"
proof -
  from not_isl_Inr [OF toy_loop_runs] obtain s' where
    run: "epoch_loop toy_net toy_state [0, 1, 2] = Inr s'" ..
  from epoch_loop_first [OF toy_loop_runs] obtain s1 where
    body: "epoch_body toy_net toy_state 0 = Inr s1" ..
  from toy_loop_value run have "trace s' =
          [Print_prec1 100, Torch_save ''runs/toy/checkpoint.pth.tar'',
           Copyfile ''runs/toy/checkpoint.pth.tar'' ''runs/toy/model_best.pth.tar'',
           Print_prec1 100, Torch_save ''runs/toy/checkpoint.pth.tar'',
           Print_prec1 50, Torch_save ''runs/toy/checkpoint.pth.tar'']"
    by simp
  with best_file_copied_iff_strictly_better [of toy_net toy_state 0 s1 "[0, 1, 2]" s'] run body
  show ?thesis by blast
qed

lemma epoch_body_checkpoint_nonneg:
  assumes "epoch_body net s epoch = Inr s'"
    and "files (fs s') (checkpoint_file (name (args s))) = Some c"
  shows "0 \<le> ckpt_best_prec1 c"
proof -
  from epoch_body_result [OF assms(1)] obtain a where
    "0 \<le> a" and "best_prec1 s' = max a (best_prec1 s)" and
    "files (fs s') (checkpoint_file (name (args s))) =
       Some \<lparr>ckpt_epoch = epoch + 1, ckpt_state_dict = model s',
             ckpt_best_prec1 = best_prec1 s'\<rparr>"
    by blast
  with assms(2) show ?thesis by auto
qed

text \<open>
  Claim C4. Over any stretch of epochs \<^verbatim>\<open>best_prec1\<close> does not decrease and ends as
  the maximum of its value before and the validation accuracies of the epochs run.
  At the end of \<^verbatim>\<open>main\<close> it is the maximum of the accuracies of all the epochs of the
  run and of the value restored from the resume checkpoint (0 without one); in a run
  without resume that completed an epoch it is the maximum of the accuracies. A
  resume from a checkpoint that the epoch loop wrote does not lower the initial 0.
\<close>

theorem best_prec1_running_maximum:
  "(epoch_loop net s es = Inr s' \<longrightarrow>
      best_prec1 s \<le> best_prec1 s' \<and>
      best_prec1 s' =
        Max (insert (best_prec1 s) (set (prec1s (drop (length (trace s)) (trace s')))))) \<and>
   (main net a disk = Inr s'' \<longrightarrow>
      best_prec1 s'' =
        Max (insert (if resume a \<noteq> []
                     then (case files disk (resume a) of
                             Some c \<Rightarrow> ckpt_best_prec1 c | None \<Rightarrow> 0)
                     else 0)
                    (set (prec1s (trace s'')))) \<and>
      (resume a = [] \<and> prec1s (trace s'') \<noteq> [] \<longrightarrow>
         best_prec1 s'' = Max (set (prec1s (trace s''))))) \<and>
   (epoch_body net s epoch = Inr s1 \<and> resume (args g) \<noteq> [] \<and>
    files (fs g) (resume (args g)) = files (fs s1) (checkpoint_file (name (args s))) \<and>
    best_prec1 g = 0 \<longrightarrow>
      best_prec1 g \<le> best_prec1 (load_checkpoint g))"
proof (intro conjI impI)
  assume run: "epoch_loop net s es = Inr s'"
  from epoch_loop_result [OF run] obtain accs where
    t: "trace s' = trace s @ expected_trace (name (args s)) (best_prec1 s) accs" and
    b: "best_prec1 s' = Max (insert (best_prec1 s) (set accs))"
    by blast
  from t have p: "prec1s (drop (length (trace s)) (trace s')) = accs"
    by (simp add: prec1s_expected_trace)
  show "best_prec1 s \<le> best_prec1 s'" by (simp add: b)
  show "best_prec1 s' =
          Max (insert (best_prec1 s) (set (prec1s (drop (length (trace s)) (trace s')))))"
    by (simp only: p b)
next
  assume m: "main net a disk = Inr s''"
  define g where "g = load_checkpoint
     \<lparr>args = a, best_prec1 = 0,
      model = WideResNet net (if dataset a = ''cifar10'' then 10 else 100),
      training = True, fs = disk, trace = []\<rparr>"
  define s0 where "s0 = \<lparr>args = args g, best_prec1 = best_prec1 g, model = model g,
     training = training g, fs = fs g, trace = trace g,
     optimizer = \<lparr>param_groups =
                     [\<lparr>group_lr = lr (args g), group_momentum = momentum (args g),
                       group_nesterov = nesterov (args g),
                       group_weight_decay = weight_decay (args g)\<rparr>],
                   opt_state = sgd_init net\<rparr>\<rparr>"
  from m obtain s1 where
    run: "epoch_loop net s0 [start_epoch (args s0)..epochs (args s0) - 1] = Inr s1" and
    s'': "s'' = s1\<lparr>trace := trace s1 @ [Print_best (best_prec1 s1)]\<rparr>"
    by (auto simp: main_def Let_def g_def s0_def split: if_splits sum.splits)
  from epoch_loop_result [OF run] obtain accs where
    pos: "\<forall>a\<in>set accs. 0 \<le> a" and
    t: "trace s1 = trace s0 @ expected_trace (name (args s0)) (best_prec1 s0) accs" and
    b: "best_prec1 s1 = Max (insert (best_prec1 s0) (set accs))"
    by blast
  have b0: "best_prec1 s0 =
      (if resume a \<noteq> []
       then (case files disk (resume a) of Some c \<Rightarrow> ckpt_best_prec1 c | None \<Rightarrow> 0)
       else 0)"
    by (simp add: s0_def g_def load_checkpoint_best split: option.splits)
  have "prec1s (trace s0) = []"
    by (simp add: s0_def g_def load_checkpoint_trace)
  then have p: "prec1s (trace s'') = accs"
    by (simp add: s'' t prec1s_append prec1s_expected_trace)
  show "best_prec1 s'' =
      Max (insert (if resume a \<noteq> []
                   then (case files disk (resume a) of
                           Some c \<Rightarrow> ckpt_best_prec1 c | None \<Rightarrow> 0)
                   else 0)
                  (set (prec1s (trace s''))))"
    by (simp only: p b0 [symmetric]) (simp add: s'' b)
  show "best_prec1 s'' = Max (set (prec1s (trace s'')))"
    if fresh: "resume a = [] \<and> prec1s (trace s'') \<noteq> []"
  proof -
    from fresh b0 have z: "best_prec1 s0 = 0" by simp
    from fresh p have ne: "accs \<noteq> []" by simp
    then have "Max (insert 0 (set accs)) = max 0 (Max (set accs))" by simp
    moreover have "0 \<le> Max (set accs)"
    proof -
      from ne have x: "hd accs \<in> set accs" by simp
      with pos have "0 \<le> hd accs" by blast
      also have "hd accs \<le> Max (set accs)" using x by simp
      finally show ?thesis .
    qed
    moreover have "best_prec1 s'' = Max (insert 0 (set accs))"
      by (simp add: s'' b z)
    ultimately have "best_prec1 s'' = Max (set accs)" by simp
    then show ?thesis by (simp only: p)
  qed
next
  assume r: "epoch_body net s epoch = Inr s1 \<and> resume (args g) \<noteq> [] \<and>
    files (fs g) (resume (args g)) = files (fs s1) (checkpoint_file (name (args s))) \<and>
    best_prec1 g = 0"
  then have body: "epoch_body net s epoch = Inr s1" by simp
  from epoch_body_result [OF body] obtain c where
    c: "files (fs s1) (checkpoint_file (name (args s))) = Some c"
    by blast
  from epoch_body_checkpoint_nonneg [OF body c] have "0 \<le> ckpt_best_prec1 c" .
  with r c show "best_prec1 g \<le> best_prec1 (load_checkpoint g)"
    by (simp add: load_checkpoint_best)
qed

theorem best_prec1_running_maximum_witness:
  "\<exists>s' s'' s1. epoch_loop toy_net toy_state [0, 1, 2] = Inr s' \<and>
      best_prec1 toy_state \<le> best_prec1 s' \<and> best_prec1 s' = 100 \<and>
      best_prec1 s' =
        Max (insert (best_prec1 toy_state)
               (set (prec1s (drop (length (trace toy_state)) (trace s'))))) \<and>
      main toy_net toy_args toy_disk = Inr s'' \<and>
      best_prec1 s'' = Max (insert 75 (set (prec1s (trace s'')))) \<and>
      epoch_body toy_net toy_state 0 = Inr s1 \<and>
      best_prec1 toy_state = 0 \<and>
      0 \<le> best_prec1 (load_checkpoint
             (toy_state\<lparr>args := toy_args\<lparr>resume := checkpoint_file ''toy''\<rparr>, fs := fs s1\<rparr>))"
proof -
  from not_isl_Inr [OF toy_loop_runs] obtain s' where
    run: "epoch_loop toy_net toy_state [0, 1, 2] = Inr s'" ..
  from toy_loop_value run have b: "best_prec1 s' = 100" by simp
  from not_isl_Inr [OF toy_main_runs] obtain s'' where
    m: "main toy_net toy_args toy_disk = Inr s''" ..
  from epoch_loop_first [OF toy_loop_runs] obtain s1 where
    body: "epoch_body toy_net toy_state 0 = Inr s1" ..
  let ?g = "toy_state\<lparr>args := toy_args\<lparr>resume := checkpoint_file ''toy''\<rparr>, fs := fs s1\<rparr>"
  have g: "resume (args ?g) \<noteq> [] \<and>
           files (fs ?g) (resume (args ?g)) = files (fs s1) (checkpoint_file (name (args toy_state))) \<and>
           best_prec1 ?g = 0"
    by (simp add: toy_state_def toy_args_def checkpoint_file_def)
  from best_prec1_running_maximum
    [of toy_net toy_state "[0, 1, 2]" s' toy_args toy_disk s'' 0 s1 ?g] run m body g b
  show ?thesis
    by (intro exI [of _ s'] exI [of _ s''] exI [of _ s1])
       (simp add: toy_args_def toy_disk_def toy_state_def)
qed

section \<open>Checkpoints, resume and the passes\<close>

lemma load_checkpoint_found:
  "resume (args g) \<noteq> [] \<Longrightarrow> files (fs g) (resume (args g)) = Some c \<Longrightarrow>
     start_epoch (args (load_checkpoint g)) = ckpt_epoch c \<and>
     best_prec1 (load_checkpoint g) = ckpt_best_prec1 c \<and>
     model (load_checkpoint g) = ckpt_state_dict c"
  by (simp add: load_checkpoint_def)

lemma checkpoint_file_nonempty: "checkpoint_file nm \<noteq> []"
  by (simp add: checkpoint_file_def)

text \<open>
  Claim C6. A run whose resume path is the checkpoint path of an experiment and whose
  disk is the one \<^verbatim>\<open>save_checkpoint\<close> left starts with the saved record: its
  starting epoch is the record's \<^verbatim>\<open>epoch\<close>, its best accuracy the record's
  \<^verbatim>\<open>best_prec1\<close>, its model the record's \<^verbatim>\<open>state_dict\<close>. After the body of epoch
  \<open>epoch\<close> these are \<open>epoch + 1\<close>, the best accuracy and the model of the state in
  which the checkpoint was written.
\<close>

theorem checkpoint_round_trip:
  "(resume (args g) = checkpoint_file (name (args s)) \<and>
    fs g = fs (save_checkpoint st is_best s) \<longrightarrow>
      start_epoch (args (load_checkpoint g)) = ckpt_epoch st \<and>
      best_prec1 (load_checkpoint g) = ckpt_best_prec1 st \<and>
      model (load_checkpoint g) = ckpt_state_dict st) \<and>
   (epoch_body net s epoch = Inr s' \<and>
    resume (args g) = checkpoint_file (name (args s)) \<and> fs g = fs s' \<longrightarrow>
      start_epoch (args (load_checkpoint g)) = epoch + 1 \<and>
      best_prec1 (load_checkpoint g) = best_prec1 s' \<and>
      model (load_checkpoint g) = model s')"
proof -
  have one: "start_epoch (args (load_checkpoint g)) = ckpt_epoch st \<and>
        best_prec1 (load_checkpoint g) = ckpt_best_prec1 st \<and>
        model (load_checkpoint g) = ckpt_state_dict st"
    if a: "resume (args g) = checkpoint_file (name (args s)) \<and>
           fs g = fs (save_checkpoint st is_best s)"
  proof -
    from a have "files (fs g) (resume (args g)) = Some st"
      by (simp add: save_checkpoint_file)
    from load_checkpoint_found [OF _ this] a show ?thesis
      by (simp add: checkpoint_file_nonempty)
  qed
  have two: "start_epoch (args (load_checkpoint g)) = epoch + 1 \<and>
        best_prec1 (load_checkpoint g) = best_prec1 s' \<and>
        model (load_checkpoint g) = model s'"
    if a: "epoch_body net s epoch = Inr s' \<and>
           resume (args g) = checkpoint_file (name (args s)) \<and> fs g = fs s'"
  proof -
    from a have body: "epoch_body net s epoch = Inr s'" by simp
    from epoch_body_result [OF body] have
      "files (fs s') (checkpoint_file (name (args s))) =
         Some \<lparr>ckpt_epoch = epoch + 1, ckpt_state_dict = model s',
               ckpt_best_prec1 = best_prec1 s'\<rparr>"
      by blast
    with a have "files (fs g) (resume (args g)) =
         Some \<lparr>ckpt_epoch = epoch + 1, ckpt_state_dict = model s',
               ckpt_best_prec1 = best_prec1 s'\<rparr>"
      by simp
    from load_checkpoint_found [OF _ this] a show ?thesis
      by (simp add: checkpoint_file_nonempty)
  qed
  from one two show ?thesis by blast
qed

theorem checkpoint_round_trip_witness:
  "\<exists>s'. epoch_body toy_net toy_state 0 = Inr s' \<and>
     resume (args (toy_state\<lparr>args := toy_args\<lparr>resume := checkpoint_file ''toy''\<rparr>, fs := fs s'\<rparr>))
       = checkpoint_file (name (args toy_state)) \<and>
     start_epoch (args (load_checkpoint
        (toy_state\<lparr>args := toy_args\<lparr>resume := checkpoint_file ''toy''\<rparr>, fs := fs s'\<rparr>))) = 0 + 1 \<and>
     best_prec1 (load_checkpoint
        (toy_state\<lparr>args := toy_args\<lparr>resume := checkpoint_file ''toy''\<rparr>, fs := fs s'\<rparr>))
       = best_prec1 s' \<and>
     model (load_checkpoint
        (toy_state\<lparr>args := toy_args\<lparr>resume := checkpoint_file ''toy''\<rparr>, fs := fs s'\<rparr>))
       = model s'"
proof -
  from epoch_loop_first [OF toy_loop_runs] obtain s' where
    body: "epoch_body toy_net toy_state 0 = Inr s'" ..
  let ?g = "toy_state\<lparr>args := toy_args\<lparr>resume := checkpoint_file ''toy''\<rparr>, fs := fs s'\<rparr>"
  have r: "resume (args ?g) = checkpoint_file (name (args toy_state))"
    by (simp add: toy_state_def toy_args_def)
  from checkpoint_round_trip [of ?g toy_state _ _ toy_net 0 s'] body r
  show ?thesis by (intro exI [of _ s']) simp
qed

text \<open>
  Claim C7. With a resume path at which there is no file, the resume block raises
  nothing: it prints that no checkpoint was found and leaves the starting epoch, the
  best accuracy and the model as they were; \<^verbatim>\<open>main\<close> then runs the epoch loop from
  the freshly constructed state.
\<close>

theorem missing_resume_file_proceeds:
  "(resume (args g) \<noteq> [] \<and> files (fs g) (resume (args g)) = None \<longrightarrow>
      load_checkpoint g =
        g\<lparr>trace := trace g @ [Print (''=> no checkpoint found at '' @ resume (args g))]\<rparr>) \<and>
   ((dataset a = ''cifar10'' \<or> dataset a = ''cifar100'') \<and>
    resume a \<noteq> [] \<and> files disk (resume a) = None \<longrightarrow>
      main net a disk =
        (case epoch_loop net
                \<lparr>args = a, best_prec1 = 0,
                 model = WideResNet net (if dataset a = ''cifar10'' then 10 else 100),
                 training = True, fs = disk,
                 trace = [Print (''=> no checkpoint found at '' @ resume a)],
                 optimizer = \<lparr>param_groups =
                                 [\<lparr>group_lr = lr a, group_momentum = momentum a,
                                   group_nesterov = nesterov a,
                                   group_weight_decay = weight_decay a\<rparr>],
                               opt_state = sgd_init net\<rparr>\<rparr>
                [start_epoch a..epochs a - 1] of
           Inl e \<Rightarrow> Inl e
         | Inr s' \<Rightarrow> Inr (s'\<lparr>trace := trace s' @ [Print_best (best_prec1 s')]\<rparr>)))"
  by (simp add: load_checkpoint_def main_def Let_def)

theorem missing_resume_file_proceeds_witness:
  "resume (args toy_state) \<noteq> [] \<and> files (fs toy_state) (resume (args toy_state)) = None \<and>
   load_checkpoint toy_state =
     toy_state\<lparr>trace := [Print ''=> no checkpoint found at old'']\<rparr> \<and>
   start_epoch (args (load_checkpoint toy_state)) = start_epoch (args toy_state) \<and>
   best_prec1 (load_checkpoint toy_state) = best_prec1 toy_state \<and>
   model (load_checkpoint toy_state) = model toy_state \<and>
   (dataset toy_args = ''cifar10'' \<or> dataset toy_args = ''cifar100'') \<and>
   files (fs toy_state) (resume (toy_args\<lparr>epochs := 1\<rparr>)) = None \<and>
   \<not> isl (main toy_net (toy_args\<lparr>epochs := 1\<rparr>) (fs toy_state))"
proof -
  note inst = missing_resume_file_proceeds
    [of toy_state "toy_args\<lparr>epochs := 1\<rparr>" "fs toy_state" toy_net]
  have h: "resume (args toy_state) \<noteq> [] \<and> files (fs toy_state) (resume (args toy_state)) = None"
    by (simp add: toy_state_def toy_args_def)
  have m: "main toy_net (toy_args\<lparr>epochs := 1\<rparr>) (fs toy_state) =
     (case epoch_loop toy_net
             (toy_state\<lparr>args := toy_args\<lparr>epochs := 1\<rparr>,
                        trace := [Print ''=> no checkpoint found at old'']\<rparr>) [0] of
        Inl e \<Rightarrow> Inl e
      | Inr s' \<Rightarrow> Inr (s'\<lparr>trace := trace s' @ [Print_best (best_prec1 s')]\<rparr>))"
    using inst by (simp add: toy_state_def toy_args_def toy_net_def upto_rec1)
  have "\<not> isl (epoch_loop toy_net
             (toy_state\<lparr>args := toy_args\<lparr>epochs := 1\<rparr>,
                        trace := [Print ''=> no checkpoint found at old'']\<rparr>) [0])"
    by code_simp
  from not_isl_Inr [OF this] obtain s1 where
    "epoch_loop toy_net
       (toy_state\<lparr>args := toy_args\<lparr>epochs := 1\<rparr>,
                  trace := [Print ''=> no checkpoint found at old'']\<rparr>) [0] = Inr s1" ..
  with m have "main toy_net (toy_args\<lparr>epochs := 1\<rparr>) (fs toy_state) =
      Inr (s1\<lparr>trace := trace s1 @ [Print_best (best_prec1 s1)]\<rparr>)"
    by (simp only: sum.case)
  then have "\<not> isl (main toy_net (toy_args\<lparr>epochs := 1\<rparr>) (fs toy_state))" by simp
  with h inst show ?thesis by (simp add: toy_state_def toy_args_def)
qed

text \<open>
  Claim C8. \<^verbatim>\<open>main\<close> ends in \<^verbatim>\<open>AssertionError\<close> exactly when the dataset name is
  neither \<^verbatim>\<open>cifar10\<close> nor \<^verbatim>\<open>cifar100\<close>; for these two names no later step raises
  that exception.
\<close>

theorem invalid_dataset_fails_assertion:
  "main net a disk = Inl AssertionError \<longleftrightarrow>
     dataset a \<noteq> ''cifar10'' \<and> dataset a \<noteq> ''cifar100''"
proof (cases "dataset a = ''cifar10'' \<or> dataset a = ''cifar100''")
  case True
  have "main net a disk \<noteq> Inl AssertionError"
  proof
    assume "main net a disk = Inl AssertionError"
    with True obtain s0 es where "epoch_loop net s0 es = Inl AssertionError"
      by (auto simp: main_def Let_def split: sum.splits)
    then show False by (simp add: epoch_loop_not_assertion)
  qed
  with True show ?thesis by auto
next
  case False
  then show ?thesis by (simp add: main_def)
qed

theorem invalid_dataset_fails_assertion_witness:
  "main toy_net (toy_args\<lparr>dataset := ''mnist''\<rparr>) toy_disk = Inl AssertionError \<and>
   main toy_net toy_args toy_disk \<noteq> Inl AssertionError \<and>
   main toy_net (toy_args\<lparr>dataset := ''cifar100''\<rparr>) toy_disk \<noteq> Inl AssertionError"
  using invalid_dataset_fails_assertion [of toy_net "toy_args\<lparr>dataset := ''mnist''\<rparr>" toy_disk]
    invalid_dataset_fails_assertion [of toy_net toy_args toy_disk]
    invalid_dataset_fails_assertion [of toy_net "toy_args\<lparr>dataset := ''cifar100''\<rparr>" toy_disk]
  by (simp add: toy_args_def)

text \<open>
  Claim C9. A validation pass that returns leaves the model parameters and the
  optimizer as they were (it sets the mode flag and prints its summary line); the
  body of its loop changes nothing of the state on any batch, and on every batch it
  updates the loss meter and the top-1 meter, or raises, exactly as the body of the
  training loop does from the same state.
\<close>

theorem validate_changes_no_parameter:
  "(validate net s epoch = Inr (prec1, s') \<longrightarrow>
      model s' = model s \<and> optimizer s' = optimizer s \<and>
      s' = s\<lparr>training := False, trace := trace s @ [Print_prec1 prec1]\<rparr>) \<and>
   (validate_batch net s losses top1 batch = Inr (s1, losses1, top11) \<longrightarrow> s1 = s) \<and>
   map_sum id snd (validate_batch net s losses top1 batch) =
     map_sum id snd (train_batch net s losses top1 batch)"
proof -
  have one: "model s' = model s \<and> optimizer s' = optimizer s \<and>
        s' = s\<lparr>training := False, trace := trace s @ [Print_prec1 prec1]\<rparr>"
    if "validate net s epoch = Inr (prec1, s')"
    using validate_result(1) [OF that] by simp
  have two: "s1 = s" if "validate_batch net s losses top1 batch = Inr (s1, losses1, top11)"
    using that by (rule validate_batch_frame)
  have three: "map_sum id snd (validate_batch net s losses top1 batch) =
        map_sum id snd (train_batch net s losses top1 batch)"
    by (simp add: validate_batch_def train_batch_def Let_def split: sum.splits)
  from one two three show ?thesis by blast
qed

theorem validate_changes_no_parameter_witness:
  "\<exists>prec1 s' s1 losses1 top11.
     validate toy_net toy_state 0 = Inr (prec1, s') \<and>
     model s' = model toy_state \<and> optimizer s' = optimizer toy_state \<and>
     s' = toy_state\<lparr>training := False, trace := trace toy_state @ [Print_prec1 prec1]\<rparr> \<and>
     validate_batch toy_net toy_state reset reset ([1, 3], [1, 0]) = Inr (s1, losses1, top11) \<and>
     s1 = toy_state \<and>
     map_sum id snd (validate_batch toy_net toy_state reset reset ([1, 3], [1, 0])) =
       map_sum id snd (train_batch toy_net toy_state reset reset ([1, 3], [1, 0]))"
proof -
  from not_isl_Inr [OF toy_validate_runs] obtain prec1 s' where
    v: "validate toy_net toy_state 0 = Inr (prec1, s')" by force
  have "\<not> isl (validate_batch toy_net toy_state reset reset ([1, 3], [1, 0]))"
    by code_simp
  from not_isl_Inr [OF this] obtain s1 losses1 top11 where
    b: "validate_batch toy_net toy_state reset reset ([1, 3], [1, 0]) = Inr (s1, losses1, top11)"
    by force
  from validate_changes_no_parameter
    [of toy_net toy_state 0 prec1 s' reset reset "([1, 3], [1, 0])" s1 losses1 top11] v b
  show ?thesis by blast
qed

section \<open>The schedule in the epoch loop\<close>

lemma epoch_body_optimizer:
  assumes "epoch_body net s epoch = Inr s'"
  shows "param_groups (optimizer s') =
           param_groups (adjust_learning_rate (args s) (optimizer s) (epoch + 1))"
proof -
  let ?s1 = "s\<lparr>optimizer := adjust_learning_rate (args s) (optimizer s) (epoch + 1)\<rparr>"
  from assms obtain s2 a s3 st b where
    tr: "train net ?s1 epoch = Inr s2" and
    va: "validate net s2 epoch = Inr (a, s3)" and
    s': "s' = save_checkpoint st b (s3\<lparr>best_prec1 := max a (best_prec1 s3)\<rparr>)"
    by (auto simp: epoch_body_def Let_def split: sum.splits)
  from train_frame [OF tr] have "param_groups (optimizer s2) = param_groups (optimizer ?s1)"
    by simp
  moreover from validate_result(1) [OF va] have "optimizer s3 = optimizer s2" by simp
  ultimately show ?thesis by (simp add: s' save_checkpoint_optimizer)
qed

text \<open>
  Claim C1. For every epoch number \<open>e\<close>, \<^verbatim>\<open>adjust_learning_rate\<close> sets the learning
  rate of every parameter group to the base learning rate times 1 for \<open>e < 60\<close>, 0.2
  for \<open>60 \<le> e < 120\<close>, 0.04 for \<open>120 \<le> e < 160\<close> and 0.008 for \<open>e \<ge> 160\<close>, and
  changes nothing else of the optimizer. The epoch loop calls it with the 1-indexed
  number \<open>epoch + 1\<close>, and the groups keep that rate to the end of the epoch.
\<close>

theorem adjust_learning_rate_schedule:
  "adjust_learning_rate a opt e =
     opt\<lparr>param_groups :=
       map (\<lambda>g. g\<lparr>group_lr :=
              lr a * (if e < 60 then 1 else if e < 120 then 0.2
                      else if e < 160 then 0.04 else 0.008)\<rparr>)
           (param_groups opt)\<rparr> \<and>
   (epoch_body net s epoch = Inr s' \<longrightarrow>
      param_groups (optimizer s') =
        map (\<lambda>g. g\<lparr>group_lr :=
               lr (args s) * (if epoch + 1 < 60 then 1 else if epoch + 1 < 120 then 0.2
                              else if epoch + 1 < 160 then 0.04 else 0.008)\<rparr>)
            (param_groups (optimizer s)))"
proof -
  have "param_groups (optimizer s') =
        map (\<lambda>g. g\<lparr>group_lr :=
               lr (args s) * (if epoch + 1 < 60 then 1 else if epoch + 1 < 120 then 0.2
                              else if epoch + 1 < 160 then 0.04 else 0.008)\<rparr>)
            (param_groups (optimizer s))"
    if "epoch_body net s epoch = Inr s'"
    using epoch_body_optimizer [OF that]
    by (simp add: adjust_learning_rate_eq)
  with adjust_learning_rate_eq [of a opt e] show ?thesis by blast
qed

theorem adjust_learning_rate_schedule_witness:
  "\<exists>s'. epoch_body toy_net toy_state 0 = Inr s' \<and>
     adjust_learning_rate toy_args (optimizer toy_state) 130 =
       (optimizer toy_state)\<lparr>param_groups :=
          [\<lparr>group_lr = 0.004, group_momentum = 0.9, group_nesterov = True,
            group_weight_decay = 0.0005\<rparr>]\<rparr> \<and>
     param_groups (optimizer s') =
       [\<lparr>group_lr = 0.1, group_momentum = 0.9, group_nesterov = True,
         group_weight_decay = 0.0005\<rparr>]"
proof -
  from epoch_loop_first [OF toy_loop_runs] obtain s' where
    body: "epoch_body toy_net toy_state 0 = Inr s'" ..
  from adjust_learning_rate_schedule
    [of toy_args "optimizer toy_state" 130 toy_net toy_state 0 s'] body
  show ?thesis
    by (intro exI [of _ s']) (simp add: toy_state_def toy_args_def)
qed

end
